theory Spec2Isabelle
  imports Complex_Main
begin

section \<open>Time travel playback (pages/TimeTravel.tsx)\<close>

text \<open>
  The component keeps four pieces of state with \<open>useState\<close>: the cursor \<open>eventCount\<close>
  (initially 1), the \<open>viewMode\<close> (initially \<open>'timestamp'\<close>), the \<open>isPlaying\<close> flag
  (initially false) and the \<open>playbackSpeed\<close> in milliseconds (initially 1000).
  The fetched timeline is \<open>timeline?.events\<close>: \<open>None\<close> while the query has no data,
  \<open>Some es\<close> once the event list \<open>es\<close> is there. JavaScript numbers that only ever
  hold integers are modelled as \<open>int\<close>.
\<close>

datatype view_mode = Timestamp | EventCount

record time_travel =
  eventCount :: int
  viewMode :: view_mode
  isPlaying :: bool
  playbackSpeed :: int

definition initial_time_travel :: time_travel where
  "initial_time_travel =
     \<lparr>eventCount = 1, viewMode = Timestamp, isPlaying = False, playbackSpeed = 1000\<rparr>"

text \<open>
  The auto-play effect returns early, installing no interval, unless the flag is set, the
  timeline has events and the view mode is \<open>'eventCount'\<close>.
\<close>

definition timer_installed :: "'e list option \<Rightarrow> time_travel \<Rightarrow> bool" where
  "timer_installed timeline s =
     (\<not> (\<not> isPlaying s \<or> timeline = None \<or> viewMode s \<noteq> EventCount))"

text \<open>The updater passed to \<open>setEventCount\<close> by the interval callback.\<close>

definition tick_update :: "'e list \<Rightarrow> int \<Rightarrow> int" where
  "tick_update events prev =
     (let maxEvents = int (length events) in if prev \<ge> maxEvents then 1 else prev + 1)"

text \<open>One firing of the interval; \<open>None\<close> when the effect has installed no interval.\<close>

definition timer_tick :: "'e list option \<Rightarrow> time_travel \<Rightarrow> time_travel option" where
  "timer_tick timeline s =
     (case timeline of
        None \<Rightarrow> None
      | Some events \<Rightarrow>
          if timer_installed timeline s
          then Some (s\<lparr>eventCount := tick_update events (eventCount s)\<rparr>)
          else None)"

definition handlePlayPause :: "time_travel \<Rightarrow> time_travel" where
  "handlePlayPause s = s\<lparr>isPlaying := \<not> isPlaying s\<rparr>"

definition handleStepForward :: "'e list option \<Rightarrow> time_travel \<Rightarrow> time_travel" where
  "handleStepForward timeline s =
     (case timeline of
        None \<Rightarrow> s
      | Some events \<Rightarrow> s\<lparr>eventCount := min (eventCount s + 1) (int (length events))\<rparr>)"

definition handleStepBackward :: "time_travel \<Rightarrow> time_travel" where
  "handleStepBackward s = s\<lparr>eventCount := max (eventCount s - 1) 1\<rparr>"

definition handleJumpToStart :: "time_travel \<Rightarrow> time_travel" where
  "handleJumpToStart s = s\<lparr>eventCount := 1, isPlaying := False\<rparr>"

definition handleJumpToEnd :: "'e list option \<Rightarrow> time_travel \<Rightarrow> time_travel" where
  "handleJumpToEnd timeline s =
     (case timeline of
        None \<Rightarrow> s
      | Some events \<Rightarrow> s\<lparr>eventCount := int (length events), isPlaying := False\<rparr>)"

definition setViewMode :: "view_mode \<Rightarrow> time_travel \<Rightarrow> time_travel" where
  "setViewMode m s = s\<lparr>viewMode := m\<rparr>"

text \<open>
  The playback operations a user or the timer can perform. A \<open>Tick\<close> while no interval
  is installed cannot happen; in a run it leaves the state as it is.
\<close>

datatype playback_op =
  StepForward | StepBackward | JumpStart | JumpEnd | Tick | PlayPause | SetViewMode view_mode

fun apply_playback :: "'e list option \<Rightarrow> time_travel \<Rightarrow> playback_op \<Rightarrow> time_travel" where
  "apply_playback timeline s StepForward = handleStepForward timeline s"
| "apply_playback timeline s StepBackward = handleStepBackward s"
| "apply_playback timeline s JumpStart = handleJumpToStart s"
| "apply_playback timeline s JumpEnd = handleJumpToEnd timeline s"
| "apply_playback timeline s Tick =
     (case timer_tick timeline s of None \<Rightarrow> s | Some s' \<Rightarrow> s')"
| "apply_playback timeline s PlayPause = handlePlayPause s"
| "apply_playback timeline s (SetViewMode m) = setViewMode m s"

fun run_playback :: "'e list option \<Rightarrow> time_travel \<Rightarrow> playback_op list \<Rightarrow> time_travel" where
  "run_playback timeline s [] = s"
| "run_playback timeline s (x # xs) = run_playback timeline (apply_playback timeline s x) xs"

definition cursor_in_range :: "'e list \<Rightarrow> time_travel \<Rightarrow> bool" where
  "cursor_in_range events s = (1 \<le> eventCount s \<and> eventCount s \<le> int (length events))"

section \<open>Exceptions\<close>

text \<open>
  A JavaScript \<open>throw\<close> is a value \<open>Inl e\<close> of a sum type, a normal return is \<open>Inr v\<close>.
  The exceptions the modelled code can meet are the ones below.
\<close>

datatype js_error = TypeError | InvalidCharacterError | URIError | SyntaxError | RangeError

section \<open>Token decoding (utils/auth.ts)\<close>

text \<open>
  The payload of a token as the source types it (\<open>interface DecodedToken\<close>). The fields
  \<open>id\<close> and \<open>exp\<close> carry a suffix because HOL has constants of these names. Times are
  numbers of seconds; they are modelled as reals.
\<close>

record DecodedToken =
  id_claim :: string
  email :: string
  role :: string
  iat :: real
  exp_claim :: real

text \<open>
  The three functions of the browser that \<open>decodeJWT\<close> calls are not code of this
  repository. They are parameters of the model: each either throws or returns.
  \<open>JSON_parse\<close> has the type the source gives its result, \<open>DecodedToken | null\<close>.
\<close>

record js_platform =
  atob :: "string \<Rightarrow> js_error + string"
  decodeURIComponent :: "string \<Rightarrow> js_error + string"
  JSON_parse :: "string \<Rightarrow> js_error + DecodedToken option"

text \<open>\<open>s.split(c)\<close> for a separator of one character: never the empty list.\<close>

fun split_char :: "char \<Rightarrow> string \<Rightarrow> string list" where
  "split_char c [] = [[]]"
| "split_char c (x # xs) =
     (if x = c then [] # split_char c xs
      else (case split_char c xs of
              [] \<Rightarrow> [[x]]
            | y # ys \<Rightarrow> (x # y) # ys))"

text \<open>\<open>a[i]\<close> on an array: \<open>None\<close> is JavaScript's \<open>undefined\<close> for an index out of range.\<close>

definition array_get :: "'a list \<Rightarrow> nat \<Rightarrow> 'a option" where
  "array_get xs i = (if i < length xs then Some (xs ! i) else None)"

text \<open>\<open>s.replace(/c/g, d)\<close> for single characters \<open>c\<close> and \<open>d\<close>.\<close>

definition replace_all :: "char \<Rightarrow> char \<Rightarrow> string \<Rightarrow> string" where
  "replace_all c d s = map (\<lambda>x. if x = c then d else x) s"

definition hex_digit :: "nat \<Rightarrow> char" where
  "hex_digit n = (''0123456789abcdef'') ! (n mod 16)"

text \<open>\<open>n.toString(16)\<close> for a non-negative integer.\<close>

function toString16 :: "nat \<Rightarrow> string" where
  "toString16 n = (if n < 16 then [hex_digit n] else toString16 (n div 16) @ [hex_digit (n mod 16)])"
  by pat_completeness auto
termination
  by (relation "measure (\<lambda>n. n)") auto

text \<open>\<open>s.slice(-k)\<close>: the last \<open>k\<close> characters.\<close>

definition slice_last :: "nat \<Rightarrow> string \<Rightarrow> string" where
  "slice_last k s = drop (length s - k) s"

text \<open>The callback of \<open>.map\<close>: \<open>'%' + ('00' + c.charCodeAt(0).toString(16)).slice(-2)\<close>.\<close>

definition percent_encode_char :: "char \<Rightarrow> string" where
  "percent_encode_char c = ''%'' @ slice_last 2 (''00'' @ toString16 (of_char c))"

text \<open>
  The body of the \<open>try\<close> block. \<open>token.split('.')[1]\<close> is \<open>undefined\<close> when the token has
  no dot, and calling \<open>.replace\<close> on it throws a TypeError.
\<close>

definition decodeJWT_try :: "js_platform \<Rightarrow> string \<Rightarrow> js_error + DecodedToken option" where
  "decodeJWT_try P token =
     (case array_get (split_char CHR ''.'' token) 1 of
        None \<Rightarrow> Inl TypeError
      | Some base64Url \<Rightarrow>
          (let base64 = replace_all CHR ''_'' CHR ''/'' (replace_all CHR ''-'' CHR ''+'' base64Url)
           in case atob P base64 of
                Inl e \<Rightarrow> Inl e
              | Inr binary \<Rightarrow>
                  (case decodeURIComponent P (concat (map percent_encode_char binary)) of
                     Inl e \<Rightarrow> Inl e
                   | Inr jsonPayload \<Rightarrow> JSON_parse P jsonPayload)))"

text \<open>
  \<open>decodeJWT\<close>: the \<open>catch\<close> clause logs the error and returns \<open>null\<close>. The result keeps
  the sum type, so that "does not throw" is a statement about the function and not a
  consequence of its type.
\<close>

definition decodeJWT :: "js_platform \<Rightarrow> string \<Rightarrow> js_error + DecodedToken option" where
  "decodeJWT P token =
     (case decodeJWT_try P token of
        Inl error \<Rightarrow> Inr None
      | Inr decoded \<Rightarrow> Inr decoded)"

text \<open>
  \<open>isTokenExpired\<close>; \<open>now\<close> is the value of \<open>Date.now()\<close>, in milliseconds.
\<close>

definition isTokenExpired :: "js_platform \<Rightarrow> int \<Rightarrow> string \<Rightarrow> js_error + bool" where
  "isTokenExpired P now token =
     (case decodeJWT P token of
        Inl e \<Rightarrow> Inl e
      | Inr None \<Rightarrow> Inr True
      | Inr (Some decoded) \<Rightarrow>
          (let currentTime = real_of_int now / 1000
           in Inr (exp_claim decoded < currentTime)))"

text \<open>
  A browser cut down to one token, for evaluating the definitions: the token
  \<open>h.eyJleHAiOjJ9.s\<close>, whose middle segment is the base64 form of the JSON text
  \<open>{"exp":2}\<close>. Every other argument makes the three functions throw.
\<close>

definition example_json :: string where
  "example_json = ''{'' @ [CHR 0x22] @ ''exp'' @ [CHR 0x22] @ '':2}''"

definition example_platform :: js_platform where
  "example_platform =
     \<lparr>atob = (\<lambda>s. if s = ''eyJleHAiOjJ9'' then Inr example_json
                  else Inl InvalidCharacterError),
      decodeURIComponent = (\<lambda>s. if s = ''%7b%22%65%78%70%22%3a%32%7d'' then Inr example_json
                  else Inl URIError),
      JSON_parse = (\<lambda>s. if s = example_json
                  then Inr (Some \<lparr>id_claim = [], email = [], role = [], iat = 0, exp_claim = 2\<rparr>)
                  else Inl SyntaxError)\<rparr>"

section \<open>JavaScript values and JSON documents\<close>

text \<open>
  A JavaScript number is finite, \<open>NaN\<close> or one of the infinities. The finite ones are
  modelled as reals (\<open>-0\<close> is not told apart from \<open>0\<close>). An object is the list of its own
  properties in insertion order; a well-formed object has no key twice.
\<close>

datatype jsnum = Finite real | NaN | PosInfinity | NegInfinity

datatype jsval =
  JSUndefined
| JSNull
| JSBool bool
| JSNumber jsnum
| JSString string
| JSArray "jsval list"
| JSObject "(string \<times> jsval) list"


text \<open>JavaScript's \<open>ToBoolean\<close>, as used by \<open>!\<close>, \<open>||\<close> and \<open>if\<close>.\<close>

fun truthy :: "jsval \<Rightarrow> bool" where
  "truthy JSUndefined = False"
| "truthy JSNull = False"
| "truthy (JSBool b) = b"
| "truthy (JSNumber (Finite r)) = (r \<noteq> 0)"
| "truthy (JSNumber NaN) = False"
| "truthy (JSNumber PosInfinity) = True"
| "truthy (JSNumber NegInfinity) = True"
| "truthy (JSString s) = (s \<noteq> [])"
| "truthy (JSArray xs) = True"
| "truthy (JSObject ps) = True"





section \<open>The API client (services/api.ts)\<close>

text \<open>
  The browser state the client touches: local storage and \<open>window.location.href\<close>.
\<close>

record browser =
  localStorage :: "string \<rightharpoonup> string"
  location_href :: string

text \<open>
  What axios hands to the interceptors: a response, or an error whose \<open>response\<close> is
  missing when no response was received.
\<close>

record axios_response =
  status :: int
  data :: jsval

record axios_error =
  message :: string
  response :: "axios_response option"

text \<open>
  The second argument of \<open>api.interceptors.response.use\<close>; \<open>production\<close> is
  \<open>process.env.NODE_ENV === 'production'\<close>. It always rejects; the result is the new
  browser state and the value it rejects with.
\<close>

definition response_rejected :: "bool \<Rightarrow> browser \<Rightarrow> axios_error \<Rightarrow> browser \<times> axios_error" where
  "response_rejected production b error =
     (let b1 = (if map_option status (response error) = Some 401
                then (let b' = b\<lparr>localStorage := (localStorage b)(''authToken'' := None)\<rparr>
                      in if production then b'\<lparr>location_href := ''/login''\<rparr> else b')
                else b)
      in if response error = None
         then (b1, \<lparr>message = ''Network error - please check your connection'',
                    response = None\<rparr>)
         else (b1, error))"

text \<open>
  A call \<open>await api.get(...)\<close> (or \<open>post\<close>, \<open>put\<close>), given what the transport produced:
  the first interceptor passes a response through, the second handles an error.
\<close>

definition api_call ::
  "bool \<Rightarrow> browser \<Rightarrow> axios_error + axios_response \<Rightarrow> browser \<times> (axios_error + axios_response)" where
  "api_call production b outcome =
     (case outcome of
        Inr resp \<Rightarrow> (b, Inr resp)
      | Inl error \<Rightarrow>
          (let (b', rejected) = response_rejected production b error in (b', Inl rejected)))"

text \<open>\<open>d?.data\<close>: \<open>undefined\<close> unless \<open>d\<close> is an object with a property \<open>data\<close>.\<close>

fun optional_data :: "jsval \<Rightarrow> jsval" where
  "optional_data (JSObject ps) = (case map_of ps ''data'' of None \<Rightarrow> JSUndefined | Some v \<Rightarrow> v)"
| "optional_data v = JSUndefined"

text \<open>\<open>response.data?.data || response.data\<close>\<close>

definition unwrap_envelope :: "axios_response \<Rightarrow> jsval" where
  "unwrap_envelope resp =
     (if truthy (optional_data (data resp)) then optional_data (data resp) else data resp)"

text \<open>
  \<open>healthApi.getHealth\<close> and \<open>notificationsApi.getUnreadCount\<close>, as functions of the
  settled \<open>api.get\<close> call: \<open>Inl\<close> is a rejected promise, \<open>Inr\<close> a resolved one. The first
  logs and rethrows in its \<open>catch\<close>, the second logs and returns a default.
\<close>

definition getHealth :: "axios_error + axios_response \<Rightarrow> axios_error + jsval" where
  "getHealth settled =
     (case settled of
        Inr resp \<Rightarrow> Inr (unwrap_envelope resp)
      | Inl error \<Rightarrow> Inl error)"

definition getUnreadCount :: "axios_error + axios_response \<Rightarrow> axios_error + jsval" where
  "getUnreadCount settled =
     (case settled of
        Inr resp \<Rightarrow> Inr (unwrap_envelope resp)
      | Inl error \<Rightarrow> Inr (JSObject [(''unreadCount'', JSNumber (Finite 0))]))"

section \<open>The route guard (components/PrivateRoute.tsx)\<close>

datatype route_result = Navigate string | Children

text \<open>
  \<open>!token\<close> holds for \<open>null\<close> (no item stored) and for the empty string. On a redirect
  the guard removes the items \<open>authToken\<close> and \<open>user\<close>.
\<close>

definition PrivateRoute :: "js_platform \<Rightarrow> int \<Rightarrow> browser \<Rightarrow> js_error + browser \<times> route_result" where
  "PrivateRoute P now b =
     (let token = localStorage b ''authToken'';
          redirect = Inr (b\<lparr>localStorage := (localStorage b)(''authToken'' := None, ''user'' := None)\<rparr>,
                          Navigate ''/login'')
      in case token of
           None \<Rightarrow> redirect
         | Some t \<Rightarrow>
             if t = [] then redirect
             else (case isTokenExpired P now t of
                     Inl e \<Rightarrow> Inl e
                   | Inr expired \<Rightarrow> if expired then redirect else Inr (b, Children)))"

text \<open>
  Protected-route checks one after the other, at the times \<open>nows\<close>, each on the
  storage the one before left.
\<close>

fun protected_checks ::
  "js_platform \<Rightarrow> int list \<Rightarrow> browser \<Rightarrow> js_error + browser \<times> route_result list" where
  "protected_checks P [] b = Inr (b, [])"
| "protected_checks P (now # nows) b =
     (case PrivateRoute P now b of
        Inl e \<Rightarrow> Inl e
      | Inr (b', r) \<Rightarrow>
          (case protected_checks P nows b' of
             Inl e \<Rightarrow> Inl e
           | Inr (b'', rs) \<Rightarrow> Inr (b'', r # rs)))"

section \<open>Dates, the date-range filter and the day buckets (pages/Analytics.tsx, EventTimeline)\<close>

text \<open>
  A \<open>Date\<close> is its time value: the milliseconds since the epoch, or \<open>None\<close> for an
  Invalid Date (time value \<open>NaN\<close>). The parser behind \<open>new Date(string)\<close> belongs to the
  browser and is a parameter \<open>parse\<close> of the model. The relational operators convert
  both dates to their time values, and every comparison with \<open>NaN\<close> is false.
\<close>

definition date_ge :: "int option \<Rightarrow> int option \<Rightarrow> bool" where
  "date_ge a b = (case (a, b) of (Some x, Some y) \<Rightarrow> x \<ge> y | _ \<Rightarrow> False)"

definition date_le :: "int option \<Rightarrow> int option \<Rightarrow> bool" where
  "date_le a b = (case (a, b) of (Some x, Some y) \<Rightarrow> x \<le> y | _ \<Rightarrow> False)"

record EventData =
  eventName :: string
  timestamp :: string
  changes :: "string list"

text \<open>The state \<open>dateRange\<close>: the fields \<open>start\<close> and \<open>end\<close>, two date strings.\<close>

record date_range =
  range_start :: string
  range_end :: string

text \<open>
  The filter that both pages apply to \<open>timeline.events\<close> in their query functions
  (Analytics: "Filter events by date range"; EventTimeline: the \<open>events\<close> field).
\<close>

definition filter_events_by_date ::
  "(string \<Rightarrow> int option) \<Rightarrow> date_range \<Rightarrow> EventData list \<Rightarrow> EventData list" where
  "filter_events_by_date parse dateRange evs =
     filter (\<lambda>event.
        let eventDate = parse (timestamp event);
            startDate = parse (range_start dateRange);
            endDate = parse (range_end dateRange)
        in date_ge eventDate startDate \<and> date_le eventDate endDate) evs"

text \<open>
  The rule of the specification, for comparison: a record is kept exactly when its
  timestamp and both bounds are valid instants and \<open>from \<le> timestamp \<le> to\<close>.
\<close>

definition spec_in_range :: "(string \<Rightarrow> int option) \<Rightarrow> date_range \<Rightarrow> EventData \<Rightarrow> bool" where
  "spec_in_range parse dateRange event =
     (case (parse (range_start dateRange), parse (timestamp event), parse (range_end dateRange)) of
        (Some from, Some t, Some to) \<Rightarrow> from \<le> t \<and> t \<le> to
      | _ \<Rightarrow> False)"

record event_stats =
  totalEvents :: int
  eventsByType :: "(string \<times> int) list"

record UserAnalyticsData =
  userId :: string
  userName :: string
  userRole :: string
  stats :: event_stats
  eventsInRange :: "EventData list"

text \<open>
  One row of \<open>analyticsData\<close>: \<open>fetched\<close> is the outcome of the two awaited calls for the
  user, \<open>Inl\<close> when one of them rejected (the \<open>catch\<close> then returns an empty row).
\<close>

definition analytics_row ::
  "(string \<Rightarrow> int option) \<Rightarrow> date_range \<Rightarrow> string \<Rightarrow> string \<Rightarrow> string
     \<Rightarrow> 'e + event_stats \<times> EventData list \<Rightarrow> UserAnalyticsData" where
  "analytics_row parse dateRange uid uname urole fetched =
     (case fetched of
        Inr (st, timeline_events) \<Rightarrow>
          \<lparr>userId = uid, userName = uname, userRole = urole, stats = st,
           eventsInRange = filter_events_by_date parse dateRange timeline_events\<rparr>
      | Inl error \<Rightarrow>
          \<lparr>userId = uid, userName = uname, userRole = urole,
           stats = \<lparr>totalEvents = 0, eventsByType = []\<rparr>,
           eventsInRange = []\<rparr>)"

subsection \<open>Local time\<close>

text \<open>
  \<open>format\<close> and \<open>eachDayOfInterval\<close> come from the library date-fns and work through
  the local-time methods of \<open>Date\<close>. Local time belongs to the browser's time zone,
  which is a parameter of the model: the two readings of the zone's offset that
  ECMAScript uses, both in milliseconds. \<open>tza_utc t\<close> is the offset in force at the
  instant \<open>t\<close> (\<open>LocalTZA(t, true)\<close>); \<open>tza_local w\<close> is the offset by which the wall-clock
  reading \<open>w\<close> is taken back to an instant (\<open>LocalTZA(w, false)\<close>). In a zone with
  daylight saving time both depend on their argument.
\<close>

record time_zone =
  tza_utc :: "int \<Rightarrow> int"
  tza_local :: "int \<Rightarrow> int"

definition msPerDay :: int where
  "msPerDay = 86400000"

definition Day :: "int \<Rightarrow> int" where
  "Day t = t div msPerDay"

definition TimeWithinDay :: "int \<Rightarrow> int" where
  "TimeWithinDay t = t mod msPerDay"

definition LocalTime :: "time_zone \<Rightarrow> int \<Rightarrow> int" where
  "LocalTime Z t = t + tza_utc Z t"

definition UTC :: "time_zone \<Rightarrow> int \<Rightarrow> int" where
  "UTC Z w = w - tza_local Z w"

text \<open>The number of the local calendar day that contains the instant \<open>t\<close>.\<close>

definition local_day :: "time_zone \<Rightarrow> int \<Rightarrow> int" where
  "local_day Z t = Day (LocalTime Z t)"

text \<open>
  \<open>date.setHours(0, 0, 0, 0)\<close>: the wall-clock reading of the date, with the time
  within the day set to zero, taken back to an instant.
\<close>

definition setHours0 :: "time_zone \<Rightarrow> int \<Rightarrow> int" where
  "setHours0 Z t = UTC Z (Day (LocalTime Z t) * msPerDay)"

text \<open>
  \<open>date.setDate(date.getDate() + 1)\<close>: the wall-clock reading one calendar day later,
  at the same time within the day, taken back to an instant.
\<close>

definition setDate_next :: "time_zone \<Rightarrow> int \<Rightarrow> int" where
  "setDate_next Z t =
     UTC Z ((Day (LocalTime Z t) + 1) * msPerDay + TimeWithinDay (LocalTime Z t))"

subsection \<open>The date-fns functions\<close>

text \<open>
  \<open>format(date, 'yyyy-MM-dd')\<close>. The string names the local calendar day, and two such
  strings are equal exactly when the days are; the model returns the number of the day in
  place of the string. An Invalid Date makes \<open>format\<close> throw a RangeError.
\<close>

definition format_ymd :: "time_zone \<Rightarrow> int option \<Rightarrow> js_error + int" where
  "format_ymd Z d = (case d of None \<Rightarrow> Inl RangeError | Some t \<Rightarrow> Inr (local_day Z t))"

text \<open>
  The loop of \<open>eachDayOfInterval\<close>: while the current date is not after the end, push
  it, then \<open>setDate(getDate() + 1)\<close> and \<open>setHours(0, 0, 0, 0)\<close>. Nothing in the code
  bounds the loop; whether it ends depends on the zone, so the result is an option and
  \<open>None\<close> stands for a loop that does not end.
\<close>

partial_function (option) each_day_loop :: "time_zone \<Rightarrow> int \<Rightarrow> int \<Rightarrow> int list option" where
  "each_day_loop Z currentDate endTime =
     (if currentDate \<le> endTime
      then Option.bind (each_day_loop Z (setHours0 Z (setDate_next Z currentDate)) endTime)
             (\<lambda>dates. Some (currentDate # dates))
      else Some [])"

declare each_day_loop.simps [code]

text \<open>
  \<open>eachDayOfInterval({ start, end })\<close>: a RangeError unless both dates are valid and
  the start is not after the end.
\<close>

definition eachDayOfInterval ::
  "time_zone \<Rightarrow> int option \<Rightarrow> int option \<Rightarrow> (js_error + int list) option" where
  "eachDayOfInterval Z startDate endDate =
     (case (startDate, endDate) of
        (Some s, Some endTime) \<Rightarrow>
          if s \<le> endTime then map_option Inr (each_day_loop Z (setHours0 Z s) endTime)
          else Some (Inl RangeError)
      | _ \<Rightarrow> Some (Inl RangeError))"

subsection \<open>Array methods whose callback can throw\<close>

fun filterE :: "('a \<Rightarrow> js_error + bool) \<Rightarrow> 'a list \<Rightarrow> js_error + 'a list" where
  "filterE p [] = Inr []"
| "filterE p (x # xs) =
     (case p x of
        Inl e \<Rightarrow> Inl e
      | Inr keep \<Rightarrow>
          (case filterE p xs of
             Inl e \<Rightarrow> Inl e
           | Inr ys \<Rightarrow> Inr (if keep then x # ys else ys)))"

fun mapE :: "('a \<Rightarrow> js_error + 'b) \<Rightarrow> 'a list \<Rightarrow> js_error + 'b list" where
  "mapE f [] = Inr []"
| "mapE f (x # xs) =
     (case f x of
        Inl e \<Rightarrow> Inl e
      | Inr y \<Rightarrow> (case mapE f xs of Inl e \<Rightarrow> Inl e | Inr ys \<Rightarrow> Inr (y # ys)))"

fun reduceE :: "('b \<Rightarrow> 'a \<Rightarrow> js_error + 'b) \<Rightarrow> 'b \<Rightarrow> 'a list \<Rightarrow> js_error + 'b" where
  "reduceE f acc [] = Inr acc"
| "reduceE f acc (x # xs) =
     (case f acc x of Inl e \<Rightarrow> Inl e | Inr acc' \<Rightarrow> reduceE f acc' xs)"

subsection \<open>Events over time\<close>

text \<open>
  A bucket \<open>{ date, events }\<close>. The source stores the label \<open>format(date, 'MMM dd')\<close>;
  the model stores the date itself.
\<close>

record day_bucket =
  bucket_date :: int
  bucket_events :: int

text \<open>The callback of the inner \<open>filter\<close>: is the event on the local day of \<open>date\<close>?\<close>

definition same_day ::
  "time_zone \<Rightarrow> (string \<Rightarrow> int option) \<Rightarrow> int \<Rightarrow> EventData \<Rightarrow> js_error + bool" where
  "same_day Z parse d event =
     (let eventDate = parse (timestamp event)
      in case format_ymd Z eventDate of
           Inl e \<Rightarrow> Inl e
         | Inr a \<Rightarrow> (case format_ymd Z (Some d) of Inl e \<Rightarrow> Inl e | Inr b \<Rightarrow> Inr (a = b)))"

definition eventsOverTime ::
  "time_zone \<Rightarrow> (string \<Rightarrow> int option) \<Rightarrow> date_range \<Rightarrow> UserAnalyticsData list
     \<Rightarrow> (js_error + day_bucket list) option" where
  "eventsOverTime Z parse dateRange analyticsData =
     (let startDate = parse (range_start dateRange);
          endDate = parse (range_end dateRange)
      in case eachDayOfInterval Z startDate endDate of
           None \<Rightarrow> None
         | Some (Inl e) \<Rightarrow> Some (Inl e)
         | Some (Inr dateInterval) \<Rightarrow>
             Some (mapE (\<lambda>d.
               case reduceE (\<lambda>count userData.
                      case filterE (same_day Z parse d) (eventsInRange userData) of
                        Inl e \<Rightarrow> Inl e
                      | Inr dayEventList \<Rightarrow> Inr (count + int (length dayEventList)))
                    0 analyticsData of
                 Inl e \<Rightarrow> Inl e
               | Inr dayEvents \<Rightarrow> Inr \<lparr>bucket_date = d, bucket_events = dayEvents\<rparr>)
             dateInterval))"

subsection \<open>Time zones\<close>

text \<open>A zone whose offset never changes.\<close>

definition fixed_zone :: "int \<Rightarrow> time_zone" where
  "fixed_zone tz = \<lparr>tza_utc = (\<lambda>t. tz), tza_local = (\<lambda>w. tz)\<rparr>"

text \<open>
  A zone with one change of offset, as Atlantic/Azores has it in spring 2024: UTC-1
  before 2024-03-31T01:00:00Z (the instant 1711846800000) and UTC+0 from then on. The
  wall-clock readings that the change skips are taken back with the offset before the
  change, as ECMAScript prescribes.
\<close>

definition spring_forward_zone :: time_zone where
  "spring_forward_zone =
     \<lparr>tza_utc = (\<lambda>t. if t < 1711846800000 then - 3600000 else 0),
      tza_local = (\<lambda>w. if w < 1711846800000 then - 3600000 else 0)\<rparr>"

text \<open>
  The zones for which the day buckets are characterised below. In such a zone an instant
  lies in the local day \<open>d\<close> or a later one exactly when it is not before the instant
  that \<open>setHours(0, 0, 0, 0)\<close> gives for day \<open>d\<close>; that instant lies in day \<open>d\<close>; and one
  step of the loop leads from it to the instant for day \<open>d + 1\<close>.
\<close>

definition zone_regular :: "time_zone \<Rightarrow> bool" where
  "zone_regular Z =
     ((\<forall>d t. (UTC Z (d * msPerDay) \<le> t) = (d \<le> local_day Z t))
      \<and> (\<forall>d. local_day Z (UTC Z (d * msPerDay)) = d)
      \<and> (\<forall>d. setHours0 Z (setDate_next Z (UTC Z (d * msPerDay))) = UTC Z ((d + 1) * msPerDay)))"

text \<open>
  A date parser cut down to a few strings, for evaluating the definitions: date-only
  strings are midnight UTC of their day, as \<open>new Date\<close> reads them.
\<close>

definition example_parse :: "string \<Rightarrow> int option" where
  "example_parse s =
     (if s = ''1970-01-02'' then Some 86400000
      else if s = ''1970-01-04'' then Some 259200000
      else if s = ''1970-01-02T00:00:00.000Z'' then Some 86400000
      else if s = ''1970-01-03T12:30:00.000Z'' then Some 217800000
      else if s = ''1970-01-04T00:00:00.000Z'' then Some 259200000
      else if s = ''1970-01-04T00:00:00.001Z'' then Some 259200001
      else if s = ''1970-01-01T23:59:59.999Z'' then Some 86399999
      else None)"

text \<open>The parser on two dates of spring 2024.\<close>

definition example_parse_2024 :: "string \<Rightarrow> int option" where
  "example_parse_2024 s =
     (if s = ''2024-03-30'' then Some 1711756800000
      else if s = ''2024-04-01'' then Some 1711929600000
      else if s = ''2024-03-31T12:00:00.000Z'' then Some 1711886400000
      else None)"

definition example_range_2024 :: date_range where
  "example_range_2024 = \<lparr>range_start = ''2024-03-30'', range_end = ''2024-04-01''\<rparr>"

definition example_analytics_2024 :: "UserAnalyticsData list" where
  "example_analytics_2024 =
     [\<lparr>userId = ''u1'', userName = ''Ada'', userRole = ''admin'',
       stats = \<lparr>totalEvents = 1, eventsByType = []\<rparr>,
       eventsInRange =
         [\<lparr>eventName = ''noon'', timestamp = ''2024-03-31T12:00:00.000Z'', changes = []\<rparr>]\<rparr>]"

definition example_range :: date_range where
  "example_range = \<lparr>range_start = ''1970-01-02'', range_end = ''1970-01-04''\<rparr>"

definition example_analytics :: "UserAnalyticsData list" where
  "example_analytics =
     [\<lparr>userId = ''u1'', userName = ''Ada'', userRole = ''admin'',
       stats = \<lparr>totalEvents = 2, eventsByType = []\<rparr>,
       eventsInRange =
         [\<lparr>eventName = ''first'', timestamp = ''1970-01-02T00:00:00.000Z'', changes = []\<rparr>,
          \<lparr>eventName = ''last'', timestamp = ''1970-01-04T00:00:00.000Z'', changes = []\<rparr>]\<rparr>,
      \<lparr>userId = ''u2'', userName = ''Bob'', userRole = ''user'',
       stats = \<lparr>totalEvents = 1, eventsByType = []\<rparr>,
       eventsInRange =
         [\<lparr>eventName = ''mid'', timestamp = ''1970-01-03T12:30:00.000Z'', changes = []\<rparr>]\<rparr>]"

section \<open>Settings export and import (pages/Settings.tsx)\<close>












section \<open>Properties of the playback controller\<close>

lemma apply_playback_in_range:
  assumes "events \<noteq> []" and "cursor_in_range events s"
  shows "cursor_in_range events (apply_playback (Some events) s x)"
proof -
  have n: "1 \<le> int (length events)"
    using assms(1) by (cases events) simp_all
  show ?thesis
  proof (cases x)
    case Tick
    then show ?thesis
      using assms(2) n
      by (simp add: cursor_in_range_def timer_tick_def tick_update_def Let_def)
  qed (use assms(2) n in \<open>simp_all add: cursor_in_range_def handleStepForward_def
         handleStepBackward_def handleJumpToStart_def handleJumpToEnd_def
         handlePlayPause_def setViewMode_def\<close>)
qed

lemma run_playback_in_range:
  assumes "events \<noteq> []"
  shows "cursor_in_range events s \<Longrightarrow> cursor_in_range events (run_playback (Some events) s xs)"
proof (induction xs arbitrary: s)
  case Nil
  then show ?case by simp
next
  case (Cons x xs)
  from assms Cons.prems have "cursor_in_range events (apply_playback (Some events) s x)"
    by (rule apply_playback_in_range)
  then show ?case
    using Cons.IH by simp
qed

text \<open>
  C1. With a fetched list of N >= 1 events and the cursor starting at 1, the cursor lies
  in [1, N] after every operation of every finite run of playback operations (steps,
  jumps, timer ticks, and the play/pause and view-mode switches that enable the ticks):
  it holds after each prefix \<open>take k ops\<close> of the run.
\<close>

theorem playback_cursor_invariant:
  assumes "length events \<ge> 1" and "eventCount s = 1"
  shows "1 \<le> eventCount (run_playback (Some events) s (take k ops))
       \<and> eventCount (run_playback (Some events) s (take k ops)) \<le> int (length events)"
proof -
  from assms(1) have ne: "events \<noteq> []" by auto
  from assms have "cursor_in_range events s"
    by (simp add: cursor_in_range_def)
  with ne have "cursor_in_range events (run_playback (Some events) s (take k ops))"
    by (rule run_playback_in_range)
  then show ?thesis
    by (simp add: cursor_in_range_def)
qed

theorem playback_cursor_invariant_witness:
  "length [CHR ''a'', CHR ''b''] \<ge> 1 \<and> eventCount initial_time_travel = 1
   \<and> eventCount (run_playback (Some [CHR ''a'', CHR ''b'']) initial_time_travel
        (take 5 [SetViewMode EventCount, PlayPause, Tick, Tick, StepForward, JumpEnd])) = 2"
  using playback_cursor_invariant [of "[CHR ''a'', CHR ''b'']" initial_time_travel 5
      "[SetViewMode EventCount, PlayPause, Tick, Tick, StepForward, JumpEnd]"]
  by (simp add: initial_time_travel_def timer_tick_def timer_installed_def tick_update_def
      handleStepForward_def handlePlayPause_def setViewMode_def)

text \<open>
  C2. Boundary no-ops. With N >= 1 fetched events, a jump to the end followed by a step
  forward leaves the cursor at N, and a jump to the start followed by a step backward
  leaves it at 1. With N = 5 and the cursor at 1, four steps forward give 5 and a fifth
  step still gives 5.
\<close>

theorem playback_boundary_noops:
  assumes "length events \<ge> 1"
  shows "eventCount (handleStepForward (Some events) (handleJumpToEnd (Some events) s))
           = int (length events)
       \<and> eventCount (handleStepForward (Some events) (handleJumpToEnd (Some events) s))
           = eventCount (handleJumpToEnd (Some events) s)
       \<and> eventCount (handleStepBackward (handleJumpToStart s)) = 1
       \<and> eventCount (handleStepBackward (handleJumpToStart s))
           = eventCount (handleJumpToStart s)
       \<and> (length events = 5 \<and> eventCount s = 1 \<longrightarrow>
            eventCount (run_playback (Some events) s
              [StepForward, StepForward, StepForward, StepForward]) = 5
          \<and> eventCount (run_playback (Some events) s
              [StepForward, StepForward, StepForward, StepForward, StepForward]) = 5)"
  by (simp add: handleStepForward_def handleJumpToEnd_def handleStepBackward_def
      handleJumpToStart_def)

theorem playback_boundary_noops_witness:
  "length ''abcde'' \<ge> 1 \<and> length ''abcde'' = 5 \<and> eventCount initial_time_travel = 1
   \<and> eventCount (handleStepForward (Some ''abcde'')
        (handleJumpToEnd (Some ''abcde'') initial_time_travel)) = 5
   \<and> eventCount (handleStepBackward (handleJumpToStart initial_time_travel)) = 1
   \<and> eventCount (run_playback (Some ''abcde'') initial_time_travel
        [StepForward, StepForward, StepForward, StepForward]) = 5
   \<and> eventCount (run_playback (Some ''abcde'') initial_time_travel
        [StepForward, StepForward, StepForward, StepForward, StepForward]) = 5"
  using playback_boundary_noops [of "''abcde''" initial_time_travel]
  by (simp add: initial_time_travel_def)

text \<open>
  C3. Timer wrap-around. While the playing flag is set, every firing of the interval
  takes the cursor c to c + 1 when c < N and back to 1 when c >= N, and leaves the
  playing flag set (playback loops, it does not stop). Such a firing exists whenever the
  view mode is \<open>'eventCount'\<close>.
\<close>

theorem timer_tick_wraps:
  assumes "isPlaying s"
  shows "(viewMode s = EventCount \<longrightarrow> timer_tick (Some events) s \<noteq> None)
       \<and> (\<forall>s'. timer_tick (Some events) s = Some s' \<longrightarrow>
             eventCount s' =
               (if eventCount s < int (length events) then eventCount s + 1 else 1)
           \<and> isPlaying s')"
  using assms
  by (auto simp add: timer_tick_def timer_installed_def tick_update_def Let_def)

theorem timer_tick_wraps_witness:
  "isPlaying \<lparr>eventCount = 3, viewMode = EventCount, isPlaying = True, playbackSpeed = 1000\<rparr>
   \<and> timer_tick (Some ''abc'')
        \<lparr>eventCount = 3, viewMode = EventCount, isPlaying = True, playbackSpeed = 1000\<rparr>
      = Some \<lparr>eventCount = 1, viewMode = EventCount, isPlaying = True, playbackSpeed = 1000\<rparr>
   \<and> timer_tick (Some ''abc'')
        \<lparr>eventCount = 2, viewMode = EventCount, isPlaying = True, playbackSpeed = 1000\<rparr>
      = Some \<lparr>eventCount = 3, viewMode = EventCount, isPlaying = True, playbackSpeed = 1000\<rparr>"
  using timer_tick_wraps [of
      "\<lparr>eventCount = 3, viewMode = EventCount, isPlaying = True, playbackSpeed = 1000\<rparr>"
      "''abc''"]
  by (simp add: timer_tick_def timer_installed_def tick_update_def)

section \<open>Properties of token decoding\<close>

lemma decodeJWT_returns: "\<exists>r. decodeJWT P token = Inr r"
  by (cases "decodeJWT_try P token") (simp_all add: decodeJWT_def)

lemma decodeJWT_catches: "decodeJWT_try P token = Inl e \<Longrightarrow> decodeJWT P token = Inr None"
  by (simp add: decodeJWT_def)

lemmas example_token_simps =
  isTokenExpired_def decodeJWT_def decodeJWT_try_def array_get_def replace_all_def
  percent_encode_char_def slice_last_def hex_digit_def example_platform_def example_json_def

text \<open>
  C4. For a token that decodes to a payload, \<open>isTokenExpired\<close> returns true when the
  payload's \<open>exp\<close> is one second before the current time \<open>Date.now() / 1000\<close>, and false
  when it is one second after it.
\<close>

theorem token_expiry_classification:
  assumes "decodeJWT P token = Inr (Some decoded)"
  shows "(exp_claim decoded = real_of_int now / 1000 - 1 \<longrightarrow>
            isTokenExpired P now token = Inr True)
       \<and> (exp_claim decoded = real_of_int now / 1000 + 1 \<longrightarrow>
            isTokenExpired P now token = Inr False)"
proof (intro conjI impI)
  assume past: "exp_claim decoded = real_of_int now / 1000 - 1"
  have "exp_claim decoded < real_of_int now / 1000"
    unfolding past by simp
  with assms show "isTokenExpired P now token = Inr True"
    by (simp add: isTokenExpired_def)
next
  assume future: "exp_claim decoded = real_of_int now / 1000 + 1"
  have "\<not> exp_claim decoded < real_of_int now / 1000"
    unfolding future by simp
  with assms show "isTokenExpired P now token = Inr False"
    by (simp add: isTokenExpired_def)
qed

theorem token_expiry_classification_witness:
  "decodeJWT example_platform ''h.eyJleHAiOjJ9.s''
     = Inr (Some \<lparr>id_claim = [], email = [], role = [], iat = 0, exp_claim = 2\<rparr>)
   \<and> (2::real) = real_of_int 3000 / 1000 - 1
   \<and> isTokenExpired example_platform 3000 ''h.eyJleHAiOjJ9.s'' = Inr True
   \<and> (2::real) = real_of_int 1000 / 1000 + 1
   \<and> isTokenExpired example_platform 1000 ''h.eyJleHAiOjJ9.s'' = Inr False"
proof -
  let ?d = "\<lparr>id_claim = [], email = [], role = [], iat = 0, exp_claim = 2\<rparr>"
  have dec: "decodeJWT example_platform ''h.eyJleHAiOjJ9.s'' = Inr (Some ?d)"
    by (simp add: example_token_simps)
  have past: "exp_claim ?d = real_of_int 3000 / 1000 - 1" by simp
  have future: "exp_claim ?d = real_of_int 1000 / 1000 + 1" by simp
  from token_expiry_classification [OF dec, of 3000] past
  have a: "isTokenExpired example_platform 3000 ''h.eyJleHAiOjJ9.s'' = Inr True"
    by blast
  from token_expiry_classification [OF dec, of 1000] future
  have b: "isTokenExpired example_platform 1000 ''h.eyJleHAiOjJ9.s'' = Inr False"
    by blast
  from dec a b show ?thesis by simp
qed

text \<open>
  C10. \<open>decodeJWT\<close> never throws: it returns on every string. Whatever throws inside its
  \<open>try\<close> block makes it return \<open>null\<close>: a token with no payload segment, a payload
  segment that \<open>atob\<close> rejects, bytes that \<open>decodeURIComponent\<close> rejects, and a payload
  text that \<open>JSON.parse\<close> rejects. And every token for which \<open>decodeJWT\<close> returns
  \<open>null\<close> is classified as expired.
\<close>

theorem decodeJWT_total:
  "(\<exists>r. decodeJWT P token = Inr r)
   \<and> (\<forall>e. decodeJWT_try P token = Inl e \<longrightarrow> decodeJWT P token = Inr None)
   \<and> (array_get (split_char CHR ''.'' token) 1 = None \<longrightarrow> decodeJWT P token = Inr None)
   \<and> (\<forall>seg e. array_get (split_char CHR ''.'' token) 1 = Some seg
         \<and> atob P (replace_all CHR ''_'' CHR ''/'' (replace_all CHR ''-'' CHR ''+'' seg)) = Inl e
         \<longrightarrow> decodeJWT P token = Inr None)
   \<and> (\<forall>seg binary e. array_get (split_char CHR ''.'' token) 1 = Some seg
         \<and> atob P (replace_all CHR ''_'' CHR ''/'' (replace_all CHR ''-'' CHR ''+'' seg)) = Inr binary
         \<and> decodeURIComponent P (concat (map percent_encode_char binary)) = Inl e
         \<longrightarrow> decodeJWT P token = Inr None)
   \<and> (\<forall>seg binary payload e. array_get (split_char CHR ''.'' token) 1 = Some seg
         \<and> atob P (replace_all CHR ''_'' CHR ''/'' (replace_all CHR ''-'' CHR ''+'' seg)) = Inr binary
         \<and> decodeURIComponent P (concat (map percent_encode_char binary)) = Inr payload
         \<and> JSON_parse P payload = Inl e
         \<longrightarrow> decodeJWT P token = Inr None)
   \<and> (decodeJWT P token = Inr None \<longrightarrow> isTokenExpired P now token = Inr True)"
proof (intro conjI allI impI)
  show "\<exists>r. decodeJWT P token = Inr r"
    by (rule decodeJWT_returns)
next
  fix e assume "decodeJWT_try P token = Inl e"
  then show "decodeJWT P token = Inr None"
    by (rule decodeJWT_catches)
next
  assume "array_get (split_char CHR ''.'' token) 1 = None"
  then have "decodeJWT_try P token = Inl TypeError"
    by (simp add: decodeJWT_try_def)
  then show "decodeJWT P token = Inr None"
    by (rule decodeJWT_catches)
next
  fix seg e
  assume "array_get (split_char CHR ''.'' token) 1 = Some seg
    \<and> atob P (replace_all CHR ''_'' CHR ''/'' (replace_all CHR ''-'' CHR ''+'' seg)) = Inl e"
  then have "decodeJWT_try P token = Inl e"
    by (simp add: decodeJWT_try_def)
  then show "decodeJWT P token = Inr None"
    by (rule decodeJWT_catches)
next
  fix seg binary e
  assume "array_get (split_char CHR ''.'' token) 1 = Some seg
    \<and> atob P (replace_all CHR ''_'' CHR ''/'' (replace_all CHR ''-'' CHR ''+'' seg)) = Inr binary
    \<and> decodeURIComponent P (concat (map percent_encode_char binary)) = Inl e"
  then have "decodeJWT_try P token = Inl e"
    by (simp add: decodeJWT_try_def)
  then show "decodeJWT P token = Inr None"
    by (rule decodeJWT_catches)
next
  fix seg binary payload e
  assume "array_get (split_char CHR ''.'' token) 1 = Some seg
    \<and> atob P (replace_all CHR ''_'' CHR ''/'' (replace_all CHR ''-'' CHR ''+'' seg)) = Inr binary
    \<and> decodeURIComponent P (concat (map percent_encode_char binary)) = Inr payload
    \<and> JSON_parse P payload = Inl e"
  then have "decodeJWT_try P token = Inl e"
    by (simp add: decodeJWT_try_def)
  then show "decodeJWT P token = Inr None"
    by (rule decodeJWT_catches)
next
  assume "decodeJWT P token = Inr None"
  then show "isTokenExpired P now token = Inr True"
    by (simp add: isTokenExpired_def)
qed

theorem decodeJWT_total_witness:
  "array_get (split_char CHR ''.'' ''no-dots'') 1 = None
   \<and> decodeJWT example_platform ''no-dots'' = Inr None
   \<and> isTokenExpired example_platform 0 ''no-dots'' = Inr True
   \<and> array_get (split_char CHR ''.'' ''h.@@.s'') 1 = Some ''@@''
   \<and> atob example_platform (replace_all CHR ''_'' CHR ''/'' (replace_all CHR ''-'' CHR ''+'' ''@@''))
       = Inl InvalidCharacterError
   \<and> decodeJWT example_platform ''h.@@.s'' = Inr None
   \<and> isTokenExpired example_platform 0 ''h.@@.s'' = Inr True"
  using decodeJWT_total [of example_platform "''no-dots''" 0]
    decodeJWT_total [of example_platform "''h.@@.s''" 0]
  by (simp add: array_get_def replace_all_def example_platform_def)

section \<open>Properties of the API client and the route guard\<close>

lemma PrivateRoute_no_token:
  assumes "localStorage b ''authToken'' = None"
  shows "PrivateRoute P now b =
           Inr (b\<lparr>localStorage := (localStorage b)(''authToken'' := None, ''user'' := None)\<rparr>,
                Navigate ''/login'')"
  using assms by (simp add: PrivateRoute_def)

lemma protected_checks_no_token:
  "localStorage b ''authToken'' = None \<Longrightarrow>
     \<exists>b'. protected_checks P nows b = Inr (b', replicate (length nows) (Navigate ''/login''))
        \<and> localStorage b' ''authToken'' = None"
proof (induction nows arbitrary: b)
  case Nil
  then show ?case by simp
next
  case (Cons now nows)
  let ?b1 = "b\<lparr>localStorage := (localStorage b)(''authToken'' := None, ''user'' := None)\<rparr>"
  have first: "PrivateRoute P now b = Inr (?b1, Navigate ''/login'')"
    using Cons.prems by (rule PrivateRoute_no_token)
  have "localStorage ?b1 ''authToken'' = None"
    by simp
  from Cons.IH [OF this] obtain b' where
    rest: "protected_checks P nows ?b1 = Inr (b', replicate (length nows) (Navigate ''/login''))"
    and gone: "localStorage b' ''authToken'' = None"
    by blast
  from first rest have
    "protected_checks P (now # nows) b
       = Inr (b', replicate (length (now # nows)) (Navigate ''/login''))"
    by simp
  with gone show ?case by blast
qed

lemma response_rejected_401:
  assumes "response error = Some r" and "status r = 401"
  shows "localStorage (fst (response_rejected production b error)) ''authToken'' = None"
  using assms by (simp add: response_rejected_def Let_def)

text \<open>
  C8. When a call through the API client receives a 401 response, the item \<open>authToken\<close>
  is gone from local storage afterwards, and every protected-route check that follows
  (any number of them, at any times, as long as nothing stores a token again) redirects
  to \<open>/login\<close>.
\<close>

theorem unauthorized_clears_token:
  assumes "response error = Some r" and "status r = 401"
  shows "localStorage (fst (api_call production b (Inl error))) ''authToken'' = None
       \<and> (\<exists>b'. protected_checks P nows (fst (api_call production b (Inl error)))
                 = Inr (b', replicate (length nows) (Navigate ''/login'')))"
proof -
  have same: "fst (api_call production b (Inl error)) = fst (response_rejected production b error)"
    by (simp add: api_call_def split: prod.splits)
  have gone: "localStorage (fst (api_call production b (Inl error))) ''authToken'' = None"
    unfolding same using assms by (rule response_rejected_401)
  from protected_checks_no_token [OF gone] gone show ?thesis
    by blast
qed

theorem unauthorized_clears_token_witness:
  "response \<lparr>message = ''Request failed with status code 401'',
             response = Some \<lparr>status = 401, data = JSNull\<rparr>\<rparr>
     = Some \<lparr>status = 401, data = JSNull\<rparr>
   \<and> status \<lparr>status = 401, data = JSNull\<rparr> = 401
   \<and> localStorage (fst (api_call False
        \<lparr>localStorage = [''authToken'' \<mapsto> ''h.eyJleHAiOjJ9.s''], location_href = ''/''\<rparr>
        (Inl \<lparr>message = ''Request failed with status code 401'',
              response = Some \<lparr>status = 401, data = JSNull\<rparr>\<rparr>))) ''authToken'' = None
   \<and> (\<exists>b'. protected_checks example_platform [1000, 1001]
        (fst (api_call False
          \<lparr>localStorage = [''authToken'' \<mapsto> ''h.eyJleHAiOjJ9.s''], location_href = ''/''\<rparr>
          (Inl \<lparr>message = ''Request failed with status code 401'',
                response = Some \<lparr>status = 401, data = JSNull\<rparr>\<rparr>)))
        = Inr (b', [Navigate ''/login'', Navigate ''/login'']))"
  using unauthorized_clears_token [of
      "\<lparr>message = ''Request failed with status code 401'',
        response = Some \<lparr>status = 401, data = JSNull\<rparr>\<rparr>"
      "\<lparr>status = 401, data = JSNull\<rparr>" False
      "\<lparr>localStorage = [''authToken'' \<mapsto> ''h.eyJleHAiOjJ9.s''], location_href = ''/''\<rparr>"
      example_platform "[1000, 1001]"]
  by (simp add: numeral_2_eq_2)

text \<open>
  C9, as the code has it. On every error of the call, \<open>getUnreadCount\<close> resolves with
  the default \<open>{ unreadCount: 0 }\<close>, while \<open>getHealth\<close> rejects with the error it caught
  (the one the response interceptor produced).
\<close>

theorem polling_errors:
  "getUnreadCount (snd (api_call production b (Inl error)))
     = Inr (JSObject [(''unreadCount'', JSNumber (Finite 0))])
   \<and> getHealth (snd (api_call production b (Inl error)))
     = Inl (snd (response_rejected production b error))"
  by (simp add: getUnreadCount_def getHealth_def api_call_def split: prod.splits)

text \<open>
  C9 as stated (both fetchers resolve on every error) fails for \<open>getHealth\<close>: on a
  network error it rejects.
\<close>

theorem polling_errors_counterexample:
  "\<not> (\<forall>error production b.
        (\<exists>v. getHealth (snd (api_call production b (Inl error))) = Inr v)
      \<and> (\<exists>v. getUnreadCount (snd (api_call production b (Inl error))) = Inr v))"
proof
  assume "\<forall>error production b.
        (\<exists>v. getHealth (snd (api_call production b (Inl error))) = Inr v)
      \<and> (\<exists>v. getUnreadCount (snd (api_call production b (Inl error))) = Inr v)"
  then have "\<exists>v. getHealth (snd (api_call False
        \<lparr>localStorage = Map.empty, location_href = ''/''\<rparr>
        (Inl \<lparr>message = ''timeout of 10000ms exceeded'', response = None\<rparr>))) = Inr v"
    by blast
  then show False
    by (simp add: getHealth_def api_call_def response_rejected_def)
qed

section \<open>Properties of the date-range filter\<close>

lemma in_range_iff_spec:
  "(date_ge (parse (timestamp event)) (parse (range_start dateRange))
      \<and> date_le (parse (timestamp event)) (parse (range_end dateRange)))
   = spec_in_range parse dateRange event"
  by (simp add: date_ge_def date_le_def spec_in_range_def split: option.splits)

lemma filter_events_by_date_spec:
  "filter_events_by_date parse dateRange evs = filter (spec_in_range parse dateRange) evs"
  by (simp add: filter_events_by_date_def Let_def in_range_iff_spec)

text \<open>
  C5. The date-range filter keeps exactly the records with \<open>from \<le> timestamp \<le> to\<close>,
  both bounds included, in their order; a record whose timestamp does not parse is left
  out (no comparison throws); and the filter of the empty list is the empty list.
\<close>

theorem date_range_filter:
  "filter_events_by_date parse dateRange evs = filter (spec_in_range parse dateRange) evs
   \<and> (\<forall>event lo hi t.
         parse (range_start dateRange) = Some lo \<and> parse (range_end dateRange) = Some hi
         \<and> parse (timestamp event) = Some t \<longrightarrow>
         (event \<in> set (filter_events_by_date parse dateRange evs)
            \<longleftrightarrow> event \<in> set evs \<and> lo \<le> t \<and> t \<le> hi))
   \<and> (\<forall>event. parse (timestamp event) = None \<longrightarrow>
         event \<notin> set (filter_events_by_date parse dateRange evs))
   \<and> filter_events_by_date parse dateRange [] = []"
proof (intro conjI allI impI)
  show "filter_events_by_date parse dateRange evs = filter (spec_in_range parse dateRange) evs"
    by (rule filter_events_by_date_spec)
next
  fix event :: EventData and lo hi t :: int
  assume "parse (range_start dateRange) = Some lo \<and> parse (range_end dateRange) = Some hi
         \<and> parse (timestamp event) = Some t"
  then have "spec_in_range parse dateRange event = (lo \<le> t \<and> t \<le> hi)"
    by (simp add: spec_in_range_def)
  then show "event \<in> set (filter_events_by_date parse dateRange evs)
            \<longleftrightarrow> event \<in> set evs \<and> lo \<le> t \<and> t \<le> hi"
    by (simp add: filter_events_by_date_spec)
next
  fix event :: EventData
  assume "parse (timestamp event) = None"
  then have "\<not> spec_in_range parse dateRange event"
    by (simp add: spec_in_range_def split: option.splits)
  then show "event \<notin> set (filter_events_by_date parse dateRange evs)"
    by (simp add: filter_events_by_date_spec)
next
  show "filter_events_by_date parse dateRange [] = []"
    by (simp add: filter_events_by_date_def)
qed

theorem date_range_filter_witness:
  "example_parse ''1970-01-02'' = Some 86400000
   \<and> example_parse ''1970-01-04'' = Some 259200000
   \<and> example_parse ''garbage'' = None
   \<and> map eventName (filter_events_by_date example_parse
        \<lparr>range_start = ''1970-01-02'', range_end = ''1970-01-04''\<rparr>
        [\<lparr>eventName = ''first'', timestamp = ''1970-01-02T00:00:00.000Z'', changes = []\<rparr>,
         \<lparr>eventName = ''early'', timestamp = ''1970-01-01T23:59:59.999Z'', changes = []\<rparr>,
         \<lparr>eventName = ''last'', timestamp = ''1970-01-04T00:00:00.000Z'', changes = []\<rparr>,
         \<lparr>eventName = ''invalid'', timestamp = ''garbage'', changes = []\<rparr>,
         \<lparr>eventName = ''late'', timestamp = ''1970-01-04T00:00:00.001Z'', changes = []\<rparr>])
       = [''first'', ''last'']"
  using date_range_filter [of example_parse
      "\<lparr>range_start = ''1970-01-02'', range_end = ''1970-01-04''\<rparr>"
      "[\<lparr>eventName = ''first'', timestamp = ''1970-01-02T00:00:00.000Z'', changes = []\<rparr>,
        \<lparr>eventName = ''early'', timestamp = ''1970-01-01T23:59:59.999Z'', changes = []\<rparr>,
        \<lparr>eventName = ''last'', timestamp = ''1970-01-04T00:00:00.000Z'', changes = []\<rparr>,
        \<lparr>eventName = ''invalid'', timestamp = ''garbage'', changes = []\<rparr>,
        \<lparr>eventName = ''late'', timestamp = ''1970-01-04T00:00:00.001Z'', changes = []\<rparr>]"]
  by (simp add: example_parse_def spec_in_range_def)

section \<open>Properties of the day buckets\<close>

lemma filterE_pure:
  "(\<And>x. x \<in> set xs \<Longrightarrow> p x = Inr (q x)) \<Longrightarrow> filterE p xs = Inr (filter q xs)"
  by (induction xs) simp_all

lemma mapE_pure:
  "(\<And>x. x \<in> set xs \<Longrightarrow> f x = Inr (g x)) \<Longrightarrow> mapE f xs = Inr (map g xs)"
  by (induction xs) simp_all

lemma reduceE_pure:
  "(\<And>x acc. x \<in> set xs \<Longrightarrow> f acc x = Inr (g acc x)) \<Longrightarrow> reduceE f acc xs = Inr (foldl g acc xs)"
  by (induction xs arbitrary: acc) simp_all

lemma msPerDay_pos: "0 < msPerDay"
  by (simp add: msPerDay_def)

lemma zone_regular_le:
  "zone_regular Z \<Longrightarrow> (UTC Z (d * msPerDay) \<le> t) = (d \<le> local_day Z t)"
  by (simp add: zone_regular_def)

lemma zone_regular_day:
  "zone_regular Z \<Longrightarrow> local_day Z (UTC Z (d * msPerDay)) = d"
  by (simp add: zone_regular_def)

lemma zone_regular_step:
  "zone_regular Z \<Longrightarrow> setHours0 Z (setDate_next Z (UTC Z (d * msPerDay))) = UTC Z ((d + 1) * msPerDay)"
  by (simp add: zone_regular_def)

lemma local_day_mono:
  assumes "zone_regular Z" and "a \<le> b"
  shows "local_day Z a \<le> local_day Z b"
proof -
  have "UTC Z (local_day Z a * msPerDay) \<le> a"
    using assms(1) by (simp add: zone_regular_le)
  with assms(2) have "UTC Z (local_day Z a * msPerDay) \<le> b"
    by simp
  with assms(1) show ?thesis
    by (simp add: zone_regular_le)
qed

lemma each_day_loop_days:
  assumes "zone_regular Z"
  shows "each_day_loop Z (UTC Z (k * msPerDay)) endTime
     = Some (map (\<lambda>d. UTC Z (d * msPerDay)) [k..local_day Z endTime])"
proof (induction "nat (local_day Z endTime + 1 - k)" arbitrary: k)
  case 0
  then have "\<not> k \<le> local_day Z endTime" by simp
  then show ?case
    using assms by (subst each_day_loop.simps) (simp add: zone_regular_le)
next
  case (Suc n)
  then have le: "k \<le> local_day Z endTime" by simp
  from Suc have "n = nat (local_day Z endTime + 1 - (k + 1))" by simp
  from Suc.hyps(1) [OF this]
  have "each_day_loop Z (UTC Z ((k + 1) * msPerDay)) endTime
     = Some (map (\<lambda>d. UTC Z (d * msPerDay)) [k + 1..local_day Z endTime])" .
  moreover have "[k..local_day Z endTime] = k # [k + 1..local_day Z endTime]"
    using le by (simp add: upto_rec1)
  moreover have "each_day_loop Z (UTC Z (k * msPerDay)) endTime
     = Option.bind (each_day_loop Z (UTC Z ((k + 1) * msPerDay)) endTime)
         (\<lambda>dates. Some (UTC Z (k * msPerDay) # dates))"
    using le assms
    by (subst each_day_loop.simps) (simp add: zone_regular_le zone_regular_step)
  ultimately show ?case by simp
qed

lemma eachDayOfInterval_days:
  assumes "zone_regular Z" and "s \<le> endTime"
  shows "eachDayOfInterval Z (Some s) (Some endTime)
           = Some (Inr (map (\<lambda>d. UTC Z (d * msPerDay)) [local_day Z s..local_day Z endTime]))"
proof -
  have "each_day_loop Z (setHours0 Z s) endTime
      = Some (map (\<lambda>d. UTC Z (d * msPerDay)) [local_day Z s..local_day Z endTime])"
    unfolding setHours0_def local_day_def [symmetric] using assms(1) by (rule each_day_loop_days)
  with assms(2) show ?thesis
    by (simp add: eachDayOfInterval_def)
qed

lemma sum_list_indicator:
  "distinct ks \<Longrightarrow> sum_list (map (\<lambda>k. if a = k then (1::int) else 0) ks) = (if a \<in> set ks then 1 else 0)"
  by (induction ks) auto

lemma count_by_key:
  assumes "distinct ks" and "\<And>x. x \<in> set xs \<Longrightarrow> key x \<in> set ks"
  shows "sum_list (map (\<lambda>k. int (length (filter (\<lambda>x. key x = k) xs))) ks) = int (length xs)"
  using assms(2)
proof (induction xs)
  case Nil
  then show ?case by simp
next
  case (Cons x xs)
  have "sum_list (map (\<lambda>k. int (length (filter (\<lambda>x. key x = k) (x # xs)))) ks)
      = sum_list (map (\<lambda>k. (if key x = k then 1 else 0)
                        + int (length (filter (\<lambda>x. key x = k) xs))) ks)"
    by (intro arg_cong [where f = sum_list] map_cong) simp_all
  also have "\<dots> = sum_list (map (\<lambda>k. if key x = k then 1 else 0) ks)
      + sum_list (map (\<lambda>k. int (length (filter (\<lambda>x. key x = k) xs))) ks)"
    by (simp add: sum_list_addf)
  also have "\<dots> = 1 + int (length xs)"
    using Cons assms(1) by (simp add: sum_list_indicator)
  finally show ?case by simp
qed

lemma foldl_add_length:
  "foldl (\<lambda>count u. count + int (length (filter P (f u)))) acc us
     = acc + int (length (filter P (concat (map f us))))"
  by (induction us arbitrary: acc) simp_all

lemma filtered_events_valid:
  assumes "filter_events_by_date parse dateRange evs = evs"
      and "parse (range_start dateRange) = Some lo"
      and "parse (range_end dateRange) = Some hi"
      and "event \<in> set evs"
  shows "\<exists>t. parse (timestamp event) = Some t \<and> lo \<le> t \<and> t \<le> hi"
proof -
  from assms(1) have "filter (spec_in_range parse dateRange) evs = evs"
    by (simp add: filter_events_by_date_spec)
  with assms(4) have "spec_in_range parse dateRange event"
    by (simp add: filter_id_conv)
  with assms(2,3) show ?thesis
    by (cases "parse (timestamp event)") (simp_all add: spec_in_range_def)
qed

lemma same_day_valid:
  assumes "zone_regular Z" and "parse (timestamp event) = Some t"
  shows "same_day Z parse (UTC Z (k * msPerDay)) event
           = Inr (local_day Z (the (parse (timestamp event))) = k)"
  using assms by (simp add: same_day_def format_ymd_def zone_regular_day)

lemma fixed_zone_regular: "zone_regular (fixed_zone tz)"
proof -
  have le: "(d * msPerDay - tz \<le> t) = (d \<le> (t + tz) div msPerDay)" for d t
  proof
    assume "d * msPerDay - tz \<le> t"
    then have "d * msPerDay \<le> t + tz" by simp
    then have "(d * msPerDay) div msPerDay \<le> (t + tz) div msPerDay"
      using msPerDay_pos by (intro zdiv_mono1) simp_all
    then show "d \<le> (t + tz) div msPerDay"
      using msPerDay_pos by simp
  next
    assume "d \<le> (t + tz) div msPerDay"
    then have "d * msPerDay \<le> (t + tz) div msPerDay * msPerDay"
      using msPerDay_pos by simp
    also have "\<dots> \<le> t + tz"
      using msPerDay_pos by (simp add: minus_mod_eq_div_mult [symmetric])
    finally show "d * msPerDay - tz \<le> t" by simp
  qed
  have utc: "UTC (fixed_zone tz) w = w - tz" for w
    by (simp add: UTC_def fixed_zone_def)
  have loc: "LocalTime (fixed_zone tz) t = t + tz" for t
    by (simp add: LocalTime_def fixed_zone_def)
  have c1: "(UTC (fixed_zone tz) (d * msPerDay) \<le> t) = (d \<le> local_day (fixed_zone tz) t)" for d t
    by (simp add: utc loc local_day_def Day_def le)
  have c2: "local_day (fixed_zone tz) (UTC (fixed_zone tz) (d * msPerDay)) = d" for d
    using msPerDay_pos by (simp add: utc loc local_day_def Day_def)
  have next_day: "setDate_next (fixed_zone tz) (UTC (fixed_zone tz) (d * msPerDay))
      = (d + 1) * msPerDay - tz" for d
    using msPerDay_pos by (simp add: utc loc setDate_next_def Day_def TimeWithinDay_def)
  have c3: "setHours0 (fixed_zone tz) (setDate_next (fixed_zone tz) (UTC (fixed_zone tz) (d * msPerDay)))
      = UTC (fixed_zone tz) ((d + 1) * msPerDay)" for d
    unfolding next_day using msPerDay_pos by (simp add: utc loc setHours0_def Day_def)
  show ?thesis
    unfolding zone_regular_def using c1 c2 c3 by blast
qed

lemma local_day_midnight_utc:
  "local_day Z (k * msPerDay) = k + tza_utc Z (k * msPerDay) div msPerDay"
  using msPerDay_pos by (simp add: local_day_def LocalTime_def Day_def)

lemma sf_utc: "UTC spring_forward_zone w = (if w < 1711846800000 then w + 3600000 else w)"
  by (simp add: UTC_def spring_forward_zone_def)

lemma sf_loc: "LocalTime spring_forward_zone t = (if t < 1711846800000 then t - 3600000 else t)"
  by (simp add: LocalTime_def spring_forward_zone_def)

lemma sf_c1: "(UTC spring_forward_zone (d * msPerDay) \<le> t) = (d \<le> local_day spring_forward_zone t)"
  unfolding sf_utc sf_loc local_day_def Day_def msPerDay_def
  by (simp split: if_splits) linarith

lemma sf_c2: "local_day spring_forward_zone (UTC spring_forward_zone (d * msPerDay)) = d"
  unfolding sf_utc sf_loc local_day_def Day_def msPerDay_def
  by (simp split: if_splits)

lemma sf_next: "setDate_next spring_forward_zone (UTC spring_forward_zone (d * msPerDay))
    = (if d = 19813 then 1711933200000 else UTC spring_forward_zone ((d + 1) * msPerDay))"
  unfolding setDate_next_def sf_utc sf_loc Day_def TimeWithinDay_def msPerDay_def
  by (simp split: if_splits)

lemma sf_c3: "setHours0 spring_forward_zone (setDate_next spring_forward_zone
      (UTC spring_forward_zone (d * msPerDay))) = UTC spring_forward_zone ((d + 1) * msPerDay)"
proof (cases "d = 19813")
  case True
  then show ?thesis
    unfolding sf_next by (simp add: setHours0_def sf_utc sf_loc Day_def msPerDay_def)
next
  case False
  have "setHours0 spring_forward_zone (UTC spring_forward_zone ((d + 1) * msPerDay))
      = UTC spring_forward_zone ((d + 1) * msPerDay)"
    using sf_c2 [of "d + 1"] by (simp add: setHours0_def local_day_def)
  with False show ?thesis
    by (simp add: sf_next)
qed

lemma spring_forward_zone_regular: "zone_regular spring_forward_zone"
  unfolding zone_regular_def using sf_c1 sf_c2 sf_c3 by blast

text \<open>
  C7, as the code has it. Let the zone be regular, let the two bounds of the date range be
  midnight UTC of the days \<open>s \<le> e\<close> (what \<open>new Date\<close> makes of a date-only string), and
  let every user's \<open>eventsInRange\<close> be filtered to the range already (filtering it again
  changes nothing). Then the events-over-time aggregation returns, without throwing and
  without looping, one bucket for each local calendar day from the local day of the start
  bound to the local day of the end bound, in order, each with the number of filtered
  events on that local day. So there are \<open>local_day end - local_day start + 1\<close> buckets;
  that is \<open>(e - s) + 1\<close> when the zone's offset is the same at the two bounds. Every count
  is non-negative and the counts add up to the number of filtered events.
\<close>

theorem day_bucket_aggregation:
  assumes regular: "zone_regular Z"
      and lo: "parse (range_start dateRange) = Some (s * msPerDay)"
      and hi: "parse (range_end dateRange) = Some (e * msPerDay)"
      and le: "s \<le> e"
      and filtered: "list_all (\<lambda>u. filter_events_by_date parse dateRange (eventsInRange u)
                                  = eventsInRange u) analyticsData"
  shows "\<exists>buckets. eventsOverTime Z parse dateRange analyticsData = Some (Inr buckets)
       \<and> buckets = map (\<lambda>d.
             \<lparr>bucket_date = UTC Z (d * msPerDay),
              bucket_events = int (length (filter
                (\<lambda>event. map_option (local_day Z) (parse (timestamp event)) = Some d)
                (concat (map eventsInRange analyticsData))))\<rparr>)
           [local_day Z (s * msPerDay)..local_day Z (e * msPerDay)]
       \<and> int (length buckets) = local_day Z (e * msPerDay) - local_day Z (s * msPerDay) + 1
       \<and> (tza_utc Z (s * msPerDay) = tza_utc Z (e * msPerDay) \<longrightarrow>
            int (length buckets) = (e - s) + 1)
       \<and> list_all (\<lambda>b. 0 \<le> bucket_events b) buckets
       \<and> sum_list (map bucket_events buckets)
           = int (length (concat (map eventsInRange analyticsData)))"
proof -
  define first_day where "first_day = local_day Z (s * msPerDay)"
  define last_day where "last_day = local_day Z (e * msPerDay)"
  define key where "key = (\<lambda>event :: EventData. local_day Z (the (parse (timestamp event))))"
  define everything where "everything = concat (map eventsInRange analyticsData)"
  define buckets where "buckets = map (\<lambda>k.
      \<lparr>bucket_date = UTC Z (k * msPerDay),
       bucket_events = int (length (filter (\<lambda>event. key event = k) everything))\<rparr>)
      [first_day..last_day]"
  have instants: "s * msPerDay \<le> e * msPerDay"
    using le msPerDay_pos by simp
  have valid: "\<exists>t. parse (timestamp event) = Some t \<and> s * msPerDay \<le> t \<and> t \<le> e * msPerDay"
    if "u \<in> set analyticsData" and "event \<in> set (eventsInRange u)" for u event
  proof -
    from filtered that(1)
    have "filter_events_by_date parse dateRange (eventsInRange u) = eventsInRange u"
      by (simp add: list_all_iff)
    from filtered_events_valid [OF this lo hi that(2)] show ?thesis .
  qed
  have valid': "\<exists>t. parse (timestamp event) = Some t \<and> s * msPerDay \<le> t \<and> t \<le> e * msPerDay"
    if "event \<in> set everything" for event
    using that valid by (auto simp add: everything_def)
  have count: "reduceE (\<lambda>count userData.
                      case filterE (same_day Z parse (UTC Z (k * msPerDay))) (eventsInRange userData) of
                        Inl e \<Rightarrow> Inl e
                      | Inr dayEventList \<Rightarrow> Inr (count + int (length dayEventList)))
                    0 analyticsData
      = Inr (int (length (filter (\<lambda>event. key event = k) everything)))" for k
  proof -
    have inner: "filterE (same_day Z parse (UTC Z (k * msPerDay))) (eventsInRange u)
        = Inr (filter (\<lambda>event. key event = k) (eventsInRange u))"
      if "u \<in> set analyticsData" for u
    proof (rule filterE_pure)
      fix event assume "event \<in> set (eventsInRange u)"
      with valid [OF that] obtain t where "parse (timestamp event) = Some t"
        by blast
      with regular show "same_day Z parse (UTC Z (k * msPerDay)) event = Inr (key event = k)"
        unfolding key_def by (rule same_day_valid)
    qed
    have "reduceE (\<lambda>count userData.
                      case filterE (same_day Z parse (UTC Z (k * msPerDay))) (eventsInRange userData) of
                        Inl e \<Rightarrow> Inl e
                      | Inr dayEventList \<Rightarrow> Inr (count + int (length dayEventList)))
                    0 analyticsData
        = Inr (foldl (\<lambda>count u. count
                 + int (length (filter (\<lambda>event. key event = k) (eventsInRange u)))) 0 analyticsData)"
      by (rule reduceE_pure) (simp add: inner)
    then show ?thesis
      by (simp add: foldl_add_length everything_def)
  qed
  have run: "eventsOverTime Z parse dateRange analyticsData = Some (Inr buckets)"
  proof -
    have "mapE (\<lambda>d.
               case reduceE (\<lambda>count userData.
                      case filterE (same_day Z parse d) (eventsInRange userData) of
                        Inl e \<Rightarrow> Inl e
                      | Inr dayEventList \<Rightarrow> Inr (count + int (length dayEventList)))
                    0 analyticsData of
                 Inl e \<Rightarrow> Inl e
               | Inr dayEvents \<Rightarrow> Inr \<lparr>bucket_date = d, bucket_events = dayEvents\<rparr>)
             (map (\<lambda>k. UTC Z (k * msPerDay)) [first_day..last_day])
        = Inr (map (\<lambda>d. \<lparr>bucket_date = d, bucket_events =
                 int (length (filter (\<lambda>event. key event = local_day Z d) everything))\<rparr>)
               (map (\<lambda>k. UTC Z (k * msPerDay)) [first_day..last_day]))"
      using regular by (intro mapE_pure) (auto simp add: count zone_regular_day)
    then show ?thesis
      using instants regular
      by (simp add: eventsOverTime_def lo hi eachDayOfInterval_days first_day_def last_day_def
          buckets_def comp_def zone_regular_day)
  qed
  have same_key: "(map_option (local_day Z) (parse (timestamp event)) = Some k) = (key event = k)"
    if "event \<in> set everything" for event k
    using valid' [OF that] by (auto simp add: key_def)
  have shape: "buckets = map (\<lambda>d.
             \<lparr>bucket_date = UTC Z (d * msPerDay),
              bucket_events = int (length (filter
                (\<lambda>event. map_option (local_day Z) (parse (timestamp event)) = Some d)
                (concat (map eventsInRange analyticsData))))\<rparr>)
           [local_day Z (s * msPerDay)..local_day Z (e * msPerDay)]"
  proof -
    have "filter (\<lambda>event. map_option (local_day Z) (parse (timestamp event)) = Some k) everything
        = filter (\<lambda>event. key event = k) everything" for k
      by (rule filter_cong [OF refl]) (rule same_key)
    then show ?thesis
      by (simp add: buckets_def first_day_def last_day_def everything_def)
  qed
  have ordered: "first_day \<le> last_day"
    unfolding first_day_def last_day_def using regular instants by (rule local_day_mono)
  then have len: "int (length buckets) = last_day - first_day + 1"
    by (simp add: buckets_def)
  have len_same: "int (length buckets) = (e - s) + 1"
    if "tza_utc Z (s * msPerDay) = tza_utc Z (e * msPerDay)"
  proof -
    have "last_day - first_day = e - s"
      by (simp add: first_day_def last_day_def local_day_midnight_utc that)
    with len show ?thesis by simp
  qed
  have nonneg: "list_all (\<lambda>b. 0 \<le> bucket_events b) buckets"
    by (simp add: buckets_def list_all_iff)
  have "key event \<in> set [first_day..last_day]" if "event \<in> set everything" for event
  proof -
    from valid' [OF that] obtain t where t: "parse (timestamp event) = Some t"
      and "s * msPerDay \<le> t" and "t \<le> e * msPerDay"
      by blast
    then have "first_day \<le> local_day Z t" and "local_day Z t \<le> last_day"
      using regular by (simp_all add: first_day_def last_day_def local_day_mono)
    with t show ?thesis
      by (simp add: key_def)
  qed
  then have "sum_list (map (\<lambda>k. int (length (filter (\<lambda>event. key event = k) everything)))
      [first_day..last_day]) = int (length everything)"
    by (intro count_by_key) simp_all
  then have total: "sum_list (map bucket_events buckets)
      = int (length (concat (map eventsInRange analyticsData)))"
    by (simp add: buckets_def comp_def everything_def)
  from len have len': "int (length buckets)
      = local_day Z (e * msPerDay) - local_day Z (s * msPerDay) + 1"
    by (simp add: first_day_def last_day_def)
  show ?thesis
  proof (intro exI conjI impI)
    show "eventsOverTime Z parse dateRange analyticsData = Some (Inr buckets)"
      by (rule run)
    show "buckets = map (\<lambda>d.
             \<lparr>bucket_date = UTC Z (d * msPerDay),
              bucket_events = int (length (filter
                (\<lambda>event. map_option (local_day Z) (parse (timestamp event)) = Some d)
                (concat (map eventsInRange analyticsData))))\<rparr>)
           [local_day Z (s * msPerDay)..local_day Z (e * msPerDay)]"
      by (rule shape)
    show "int (length buckets) = local_day Z (e * msPerDay) - local_day Z (s * msPerDay) + 1"
      by (rule len')
    show "int (length buckets) = (e - s) + 1"
      if "tza_utc Z (s * msPerDay) = tza_utc Z (e * msPerDay)"
      using that by (rule len_same)
    show "list_all (\<lambda>b. 0 \<le> bucket_events b) buckets"
      by (rule nonneg)
    show "sum_list (map bucket_events buckets)
           = int (length (concat (map eventsInRange analyticsData)))"
      by (rule total)
  qed
qed

theorem day_bucket_aggregation_witness:
  "zone_regular (fixed_zone (- 18000000))
   \<and> example_parse (range_start example_range) = Some (1 * msPerDay)
   \<and> example_parse (range_end example_range) = Some (3 * msPerDay)
   \<and> (1::int) \<le> 3
   \<and> list_all (\<lambda>u. filter_events_by_date example_parse example_range (eventsInRange u)
                     = eventsInRange u) example_analytics
   \<and> tza_utc (fixed_zone (- 18000000)) (1 * msPerDay)
       = tza_utc (fixed_zone (- 18000000)) (3 * msPerDay)
   \<and> (\<exists>buckets. eventsOverTime (fixed_zone (- 18000000)) example_parse example_range
                    example_analytics = Some (Inr buckets)
         \<and> int (length buckets) = (3 - 1) + 1
         \<and> list_all (\<lambda>b. 0 \<le> bucket_events b) buckets
         \<and> sum_list (map bucket_events buckets)
             = int (length (concat (map eventsInRange example_analytics))))
   \<and> eventsOverTime (fixed_zone (- 18000000)) example_parse example_range example_analytics
       = Some (Inr [\<lparr>bucket_date = 18000000, bucket_events = 1\<rparr>,
                    \<lparr>bucket_date = 104400000, bucket_events = 0\<rparr>,
                    \<lparr>bucket_date = 190800000, bucket_events = 2\<rparr>])
   \<and> zone_regular spring_forward_zone
   \<and> (\<exists>buckets. eventsOverTime spring_forward_zone example_parse_2024 example_range_2024
                    example_analytics_2024 = Some (Inr buckets)
         \<and> int (length buckets) = 19814 - 19811 + 1
         \<and> sum_list (map bucket_events buckets) = 1)"
proof -
  have regular: "zone_regular (fixed_zone (- 18000000))"
    by (rule fixed_zone_regular)
  have lo: "example_parse (range_start example_range) = Some (1 * msPerDay)"
    by (simp add: example_range_def example_parse_def msPerDay_def)
  have hi: "example_parse (range_end example_range) = Some (3 * msPerDay)"
    by (simp add: example_range_def example_parse_def msPerDay_def)
  have le: "(1::int) \<le> 3"
    by simp
  have filtered: "list_all (\<lambda>u. filter_events_by_date example_parse example_range (eventsInRange u)
                     = eventsInRange u) example_analytics"
    by (simp add: example_analytics_def example_range_def filter_events_by_date_def
        example_parse_def date_ge_def date_le_def)
  have same: "tza_utc (fixed_zone (- 18000000)) (1 * msPerDay)
       = tza_utc (fixed_zone (- 18000000)) (3 * msPerDay)"
    by (simp add: fixed_zone_def)
  have run: "eventsOverTime (fixed_zone (- 18000000)) example_parse example_range example_analytics
       = Some (Inr [\<lparr>bucket_date = 18000000, bucket_events = 1\<rparr>,
                    \<lparr>bucket_date = 104400000, bucket_events = 0\<rparr>,
                    \<lparr>bucket_date = 190800000, bucket_events = 2\<rparr>])"
    by code_simp
  from day_bucket_aggregation [OF regular lo hi le filtered] same
  have ex: "\<exists>buckets. eventsOverTime (fixed_zone (- 18000000)) example_parse example_range
                    example_analytics = Some (Inr buckets)
         \<and> int (length buckets) = (3 - 1) + 1
         \<and> list_all (\<lambda>b. 0 \<le> bucket_events b) buckets
         \<and> sum_list (map bucket_events buckets)
             = int (length (concat (map eventsInRange example_analytics)))"
    by (elim exE conjE impE) (assumption, intro exI conjI)
  have lo': "example_parse_2024 (range_start example_range_2024) = Some (19812 * msPerDay)"
    by (simp add: example_range_2024_def example_parse_2024_def msPerDay_def)
  have hi': "example_parse_2024 (range_end example_range_2024) = Some (19814 * msPerDay)"
    by (simp add: example_range_2024_def example_parse_2024_def msPerDay_def)
  have le': "(19812::int) \<le> 19814"
    by simp
  have filtered': "list_all (\<lambda>u. filter_events_by_date example_parse_2024 example_range_2024
                     (eventsInRange u) = eventsInRange u) example_analytics_2024"
    by (simp add: example_analytics_2024_def example_range_2024_def filter_events_by_date_def
        example_parse_2024_def date_ge_def date_le_def)
  have first_day: "local_day spring_forward_zone (19812 * msPerDay) = 19811"
    by (simp add: local_day_def sf_loc Day_def msPerDay_def)
  have last_day: "local_day spring_forward_zone (19814 * msPerDay) = 19814"
    by (simp add: local_day_def sf_loc Day_def msPerDay_def)
  have total: "int (length (concat (map eventsInRange example_analytics_2024))) = 1"
    by (simp add: example_analytics_2024_def)
  from day_bucket_aggregation [OF spring_forward_zone_regular lo' hi' le' filtered']
  have ex': "\<exists>buckets. eventsOverTime spring_forward_zone example_parse_2024 example_range_2024
                    example_analytics_2024 = Some (Inr buckets)
         \<and> int (length buckets) = 19814 - 19811 + 1
         \<and> sum_list (map bucket_events buckets) = 1"
    unfolding first_day last_day total by (elim exE conjE) (intro exI conjI)
  show ?thesis
    by (intro conjI regular lo hi le filtered same ex run spring_forward_zone_regular ex')
qed

text \<open>
  C7 as stated fails where the zone's offset changes between the two bounds. In a zone
  that goes from UTC-1 to UTC+0 on 2024-03-31, the range 2024-03-30 to 2024-04-01 gets
  four buckets (the local days 29, 30 and 31 March and 1 April), not \<open>(e - s) + 1 = 3\<close>.
\<close>

theorem day_bucket_count_counterexample:
  "\<not> (\<forall>Z parse dateRange analyticsData s e.
        parse (range_start dateRange) = Some (s * msPerDay)
        \<and> parse (range_end dateRange) = Some (e * msPerDay)
        \<and> s \<le> e
        \<and> list_all (\<lambda>u. filter_events_by_date parse dateRange (eventsInRange u)
                          = eventsInRange u) analyticsData
        \<longrightarrow> (\<exists>buckets. eventsOverTime Z parse dateRange analyticsData = Some (Inr buckets)
              \<and> int (length buckets) = (e - s) + 1
              \<and> list_all (\<lambda>b. 0 \<le> bucket_events b) buckets
              \<and> sum_list (map bucket_events buckets)
                  = int (length (concat (map eventsInRange analyticsData)))))"
proof
  assume claim: "\<forall>Z parse dateRange analyticsData s e.
        parse (range_start dateRange) = Some (s * msPerDay)
        \<and> parse (range_end dateRange) = Some (e * msPerDay)
        \<and> s \<le> e
        \<and> list_all (\<lambda>u. filter_events_by_date parse dateRange (eventsInRange u)
                          = eventsInRange u) analyticsData
        \<longrightarrow> (\<exists>buckets. eventsOverTime Z parse dateRange analyticsData = Some (Inr buckets)
              \<and> int (length buckets) = (e - s) + 1
              \<and> list_all (\<lambda>b. 0 \<le> bucket_events b) buckets
              \<and> sum_list (map bucket_events buckets)
                  = int (length (concat (map eventsInRange analyticsData))))"
  have lo: "example_parse_2024 (range_start example_range_2024) = Some (19812 * msPerDay)"
    by (simp add: example_range_2024_def example_parse_2024_def msPerDay_def)
  have hi: "example_parse_2024 (range_end example_range_2024) = Some (19814 * msPerDay)"
    by (simp add: example_range_2024_def example_parse_2024_def msPerDay_def)
  have filtered: "list_all (\<lambda>u. filter_events_by_date example_parse_2024 example_range_2024
                     (eventsInRange u) = eventsInRange u) example_analytics_2024"
    by (simp add: example_analytics_2024_def example_range_2024_def filter_events_by_date_def
        example_parse_2024_def date_ge_def date_le_def)
  have run: "eventsOverTime spring_forward_zone example_parse_2024 example_range_2024
        example_analytics_2024
      = Some (Inr [\<lparr>bucket_date = 1711674000000, bucket_events = 0\<rparr>,
                   \<lparr>bucket_date = 1711760400000, bucket_events = 0\<rparr>,
                   \<lparr>bucket_date = 1711846800000, bucket_events = 1\<rparr>,
                   \<lparr>bucket_date = 1711929600000, bucket_events = 0\<rparr>])"
    by code_simp
  from claim [rule_format, of example_parse_2024 example_range_2024 19812 19814
      example_analytics_2024 spring_forward_zone] lo hi filtered
  obtain buckets where
    "eventsOverTime spring_forward_zone example_parse_2024 example_range_2024
        example_analytics_2024 = Some (Inr buckets)"
    and "int (length buckets) = (19814 - 19812) + 1"
    by auto
  with run show False
    by simp
qed

section \<open>Properties of settings export and import\<close>










end
